theory Spec2Isabelle
  imports Main "HOL-Library.Multiset"
begin

section \<open>Data model\<close>

text \<open>
  The demo is one component class, \<^verbatim>\<open>App\<close>, and one injectable registry,
  \<^verbatim>\<open>ElementRegistry\<close>. The list items are JavaScript objects
  \<^verbatim>\<open>{id, value}\<close>; one tracking strategy keys the rendered nodes by the object
  reference itself, so object identity is part of the model: an item lives in a store and
  the list signal holds references into it. The source never assigns to a field of an
  item, so the store only ever grows; a reference is the position at which the object was
  allocated.

  The two number fields are JavaScript numbers, that is IEEE doubles. In a run they hold
  nothing but integers from \<open>0\<close> to \<open>2^53\<close>: the initial indices \<open>0..9\<close>, and what adding
  1 to such a number gives (\<open>js_add1\<close> below; \<open>steps_numbers\<close> proves that no other number
  arises, so no fraction, NaN or Infinity). Every integer of magnitude up to \<open>2^53\<close> is a
  double, so the fields are integers here, and the model speaks about numbers of that
  magnitude only.
\<close>

type_synonym ref = nat

record item =
  id' :: int
  value' :: int

text \<open>
  What \<^verbatim>\<open>trackByFn\<close> can return: a number (the position or the id), an object
  reference, or \<^verbatim>\<open>undefined\<close> when no \<^verbatim>\<open>case\<close> of its switch matches.
\<close>

datatype key = KNum int | KObj ref | KUndefined

text \<open>The one callback that \<^verbatim>\<open>App\<close> hands to \<^verbatim>\<open>afterNextRender\<close>.\<close>

datatype callback = ResetCallback

text \<open>
  The writes of \<^verbatim>\<open>App\<close> that the outside can observe, in the order in which they
  happen: a snapshot published with \<^verbatim>\<open>arr.set\<close>, and the registry emptied with
  \<^verbatim>\<open>elements.clear()\<close>.
\<close>

datatype effect = Published "ref list" | RegistryCleared

record app =
  heap :: "item list"
  elements :: "(nat \<times> string) list"
  arr :: "ref list"
  trackingStrategy :: string
  domStrategy :: string
  changeStrategy :: string
  afterNextRenderQueue :: "callback list"
  intervals :: "nat list"
  destroyed :: bool
  trace :: "effect list"

text \<open>
  \<^item> \<open>heap\<close>: the store of item objects; \<open>heap s ! r\<close> is the object behind reference \<open>r\<close>.
  \<^item> \<open>elements\<close>: \<^verbatim>\<open>ElementRegistry.elements\<close>, a \<^verbatim>\<open>Map\<close> from rendered
    element to the text recorded for it, as an association list.
  \<^item> \<open>arr\<close> and the three strategies: the signals of the class. The strategies are
    strings, as the casts in the source do not check anything at run time.
  \<^item> \<open>afterNextRenderQueue\<close>: callbacks registered with \<^verbatim>\<open>afterNextRender\<close> and
    not yet run.
  \<^item> \<open>intervals\<close>: the periods, in milliseconds, of the interval timers that are
    registered with the browser.
  \<^item> \<open>destroyed\<close>: whether the view that owns the component has been torn down.
  \<^item> \<open>trace\<close>: the observable writes so far, oldest first.
\<close>

definition deref :: "app \<Rightarrow> ref \<Rightarrow> item" where
  "deref s r = heap s ! r"

text \<open>
  A state is well formed when every reference of the snapshot points into the store.
  JavaScript has no dangling references, so only such states occur.
\<close>

definition wf :: "app \<Rightarrow> bool" where
  "wf s \<longleftrightarrow> list_all (\<lambda>r. r < length (heap s)) (arr s)"

section \<open>Startup: query parameters and field initialisers\<close>

text \<open>
  \<^verbatim>\<open>new URLSearchParams(window.location.search)\<close> is the browser's parser; the model
  starts from its result, the name/value pairs in order. \<^verbatim>\<open>get\<close> returns the first
  value stored under the name, or \<^verbatim>\<open>null\<close>.
\<close>

type_synonym URLSearchParams = "(string \<times> string) list"

definition params_get :: "URLSearchParams \<Rightarrow> string \<Rightarrow> string option" where
  "params_get params name = map_of params name"

text \<open>
  \<^verbatim>\<open>x || d\<close> on a string or \<^verbatim>\<open>null\<close>: \<^verbatim>\<open>null\<close> and the empty string are
  falsy, every other string is truthy.
\<close>

definition js_or :: "string option \<Rightarrow> string \<Rightarrow> string" where
  "js_or v d = (case v of None \<Rightarrow> d | Some x \<Rightarrow> if x = [] then d else x)"

text \<open>\<^verbatim>\<open>Array.from({ length: 10 }).map((_, i) => ({ id: i, value: i }))\<close>: the objects.\<close>

definition ten_items :: "item list" where
  "ten_items = map (\<lambda>i. \<lparr>id' = int i, value' = int i\<rparr>) [0..<10]"

text \<open>
  Allocating the objects of an array literal or of a \<^verbatim>\<open>map\<close> result: they are
  appended to the store, and the new array holds their references in order.
\<close>

definition new_items :: "item list \<Rightarrow> app \<Rightarrow> ref list \<times> app" where
  "new_items its s =
     ([length (heap s)..<length (heap s) + length its], s\<lparr>heap := heap s @ its\<rparr>)"

text \<open>
  The state of a new \<^verbatim>\<open>App\<close>: the field initialisers, and of the constructor the
  \<^verbatim>\<open>setInterval(..., 3000)\<close>, whose handle the source drops. (The constructor's
  \<^verbatim>\<open>effect\<close> runs \<open>reset\<close> and mirrors the strategies into the location; the
  framework schedules it, and \<open>reset\<close> is modelled below on its own.)
\<close>

definition App :: "URLSearchParams \<Rightarrow> app" where
  "App params =
     (let s0 = \<lparr>heap = [], elements = [], arr = [],
                trackingStrategy = js_or (params_get params ''tracking'') ''index'',
                domStrategy = js_or (params_get params ''dom'') ''stateless'',
                changeStrategy = js_or (params_get params ''change'') ''increment'',
                afterNextRenderQueue = [], intervals = [], destroyed = False, trace = []\<rparr>;
          (refs, s1) = new_items ten_items s0
      in s1\<lparr>arr := refs, intervals := [3000]\<rparr>)"

section \<open>The key selector\<close>

text \<open>
  \<^verbatim>\<open>trackByFn\<close> reads the tracking strategy signal and, in one branch, the \<^verbatim>\<open>id\<close>
  field of the item; it writes nothing. A strategy that is none of the three strings falls
  out of the switch, and the arrow function returns \<^verbatim>\<open>undefined\<close>.
\<close>

definition trackByFn :: "app \<Rightarrow> nat \<Rightarrow> ref \<Rightarrow> key" where
  "trackByFn s index item_ref =
     (if trackingStrategy s = ''index'' then KNum (int index)
      else if trackingStrategy s = ''id'' then KNum (id' (deref s item_ref))
      else if trackingStrategy s = ''identity'' then KObj item_ref
      else KUndefined)"

text \<open>
  The template: \<^verbatim>\<open>@for (item of arr(); track trackByFn($index, item))\<close>. The keys of a
  render, in list order.
\<close>

definition track_keys :: "app \<Rightarrow> key list" where
  "track_keys s = map (\<lambda>(i, r). trackByFn s i r) (enumerate 0 (arr s))"

section \<open>Publishing a snapshot, the registry, render callbacks\<close>

text \<open>\<^verbatim>\<open>this.arr.set(xs)\<close>: the signal takes the new array; the write is observable.\<close>

definition arr_set :: "ref list \<Rightarrow> app \<Rightarrow> app" where
  "arr_set xs s = s\<lparr>arr := xs, trace := trace s @ [Published xs]\<rparr>"

text \<open>\<^verbatim>\<open>this.elementRegistry.elements.clear()\<close>.\<close>

definition elements_clear :: "app \<Rightarrow> app" where
  "elements_clear s = s\<lparr>elements := [], trace := trace s @ [RegistryCleared]\<rparr>"

text \<open>
  \<^verbatim>\<open>afterNextRender(cb, ...)\<close> only registers the callback; the framework runs it
  once, after the next render has completed.
\<close>

definition afterNextRender :: "callback \<Rightarrow> app \<Rightarrow> app" where
  "afterNextRender cb s = s\<lparr>afterNextRenderQueue := afterNextRenderQueue s @ [cb]\<rparr>"

text \<open>\<^verbatim>\<open>App.reset\<close>, its three statements in program order.\<close>

definition reset :: "app \<Rightarrow> app" where
  "reset s = elements_clear (afterNextRender ResetCallback (arr_set [] s))"

text \<open>The body of the callback that \<open>reset\<close> registers: ten new objects, published.\<close>

fun run_callback :: "callback \<Rightarrow> app \<Rightarrow> app" where
  "run_callback ResetCallback s =
     (let (refs, s1) = new_items ten_items s in arr_set refs s1)"

text \<open>
  A render has completed: the framework empties the queue of \<^verbatim>\<open>afterNextRender\<close>
  callbacks and runs each of them once, in the order of registration.
\<close>

definition render_done :: "app \<Rightarrow> app" where
  "render_done s =
     fold run_callback (afterNextRenderQueue s) (s\<lparr>afterNextRenderQueue := []\<rparr>)"

text \<open>
  The toggle handlers set one strategy signal each. The constructor's \<^verbatim>\<open>effect\<close>
  reads the three strategies, so the framework runs it again after any of them has
  changed; of its body, \<open>reset\<close> is modelled (\<^verbatim>\<open>router.navigate\<close> writes the
  location only, which is no part of the state here).
\<close>

definition onTrackingStrategyChange :: "string \<Rightarrow> app \<Rightarrow> app" where
  "onTrackingStrategyChange strategy s = s\<lparr>trackingStrategy := strategy\<rparr>"

definition onDomStrategyChange :: "string \<Rightarrow> app \<Rightarrow> app" where
  "onDomStrategyChange strategy s = s\<lparr>domStrategy := strategy\<rparr>"

definition onChangeStrategyChange :: "string \<Rightarrow> app \<Rightarrow> app" where
  "onChangeStrategyChange strategy s = s\<lparr>changeStrategy := strategy\<rparr>"

section \<open>The mutation driver\<close>

text \<open>
  \<^verbatim>\<open>n + 1\<close> on a JavaScript number that holds an integer \<open>n\<close> of magnitude at most
  \<open>2^53 = 9007199254740992\<close>. Below \<open>2^53\<close> the sum is an integer of that magnitude again,
  hence a double, and the addition is exact. At \<open>2^53\<close> the sum \<open>2^53 + 1\<close> is no double: it
  lies halfway between the doubles \<open>2^53\<close> and \<open>2^53 + 2\<close>, and the addition rounds it to
  the one with the even significand, which is \<open>2^53\<close> itself.
\<close>

definition js_add1 :: "int \<Rightarrow> int" where
  "js_add1 n = (if n < 9007199254740992 then n + 1 else n)"

text \<open>\<^verbatim>\<open>Number.isSafeInteger\<close> on an integer: its magnitude is below \<open>2^53\<close>.\<close>

definition isSafeInteger :: "int \<Rightarrow> bool" where
  "isSafeInteger n \<longleftrightarrow> - 9007199254740992 < n \<and> n < 9007199254740992"

text \<open>The numbers of a run: the integers from \<open>0\<close> to \<open>2^53\<close>, in both fields of every object.\<close>

definition run_number :: "int \<Rightarrow> bool" where
  "run_number n \<longleftrightarrow> 0 \<le> n \<and> n \<le> 9007199254740992"

definition run_numbers :: "app \<Rightarrow> bool" where
  "run_numbers s \<longleftrightarrow> list_all (\<lambda>item. run_number (id' item) \<and> run_number (value' item)) (heap s)"

text \<open>\<^verbatim>\<open>(item) => ({ id: item.id + 1, value: item.value + 1 })\<close>, mapped over the items.\<close>

definition increment_items :: "item list \<Rightarrow> item list" where
  "increment_items its =
     map (\<lambda>item. \<lparr>id' = js_add1 (id' item), value' = js_add1 (value' item)\<rparr>) its"

text \<open>
  The \<open>increment\<close> branch of the interval callback: every object literal of the
  \<^verbatim>\<open>map\<close> is a new object, and the array of the new objects is published.
\<close>

definition tick_increment :: "app \<Rightarrow> app" where
  "tick_increment s =
     (let (refs, s1) = new_items (increment_items (map (deref s) (arr s))) s
      in arr_set refs s1)"

text \<open>
  The other branch sorts a copy of the array with the comparator
  \<^verbatim>\<open>(a, b) => 0.5 - Math.random()\<close>, which looks at neither argument. Which
  comparisons \<^verbatim>\<open>Array.prototype.sort\<close> makes, and what order results from an
  inconsistent comparator, is the engine's business, and \<^verbatim>\<open>Math.random\<close> is the
  environment's: the model lets the environment choose the result, any rearrangement of
  the same references. (No engine's sort drops or duplicates an element.)
\<close>

definition sort_random :: "ref list \<Rightarrow> ref list \<Rightarrow> bool" where
  "sort_random xs newArr \<longleftrightarrow> mset newArr = mset xs"

text \<open>
  One firing of the interval callback. It can fire only while its timer is registered;
  every strategy other than the string \<^verbatim>\<open>increment\<close> takes the \<^verbatim>\<open>else\<close> branch.
\<close>

inductive interval_tick :: "app \<Rightarrow> app \<Rightarrow> bool" where
  increment:
    "3000 \<in> set (intervals s) \<Longrightarrow> changeStrategy s = ''increment''
       \<Longrightarrow> interval_tick s (tick_increment s)"
| shuffle:
    "3000 \<in> set (intervals s) \<Longrightarrow> changeStrategy s \<noteq> ''increment''
       \<Longrightarrow> sort_random (arr s) newArr
       \<Longrightarrow> interval_tick s (arr_set newArr s)"

code_pred interval_tick .

section \<open>Teardown and the events of the component\<close>

text \<open>
  \<^verbatim>\<open>App\<close> declares no \<^verbatim>\<open>ngOnDestroy\<close>, registers nothing with a
  \<^verbatim>\<open>DestroyRef\<close>, and has dropped the handle of its interval timer; the source holds no
  \<^verbatim>\<open>clearInterval\<close>. Tearing the view down therefore runs no code of the component:
  the state records that it happened.
\<close>

definition teardown :: "app \<Rightarrow> app" where
  "teardown s = s\<lparr>destroyed := True\<rparr>"

text \<open>
  Everything that can happen to the component, in any interleaving: the timer fires, the
  user toggles a strategy, the effect runs \<open>reset\<close>, a render completes, the view is torn
  down.
\<close>

inductive step :: "app \<Rightarrow> app \<Rightarrow> bool" where
  tick: "interval_tick s s' \<Longrightarrow> step s s'"
| tracking_toggled: "step s (onTrackingStrategyChange v s)"
| dom_toggled: "step s (onDomStrategyChange v s)"
| change_toggled: "step s (onChangeStrategyChange v s)"
| effect_run: "step s (reset s)"
| rendered: "step s (render_done s)"
| torn_down: "step s (teardown s)"

code_pred step .

section \<open>The reconciler's contract\<close>

text \<open>
  Modelled from the spec: the keyed-list reconciler is the host framework's \<^verbatim>\<open>@for\<close>
  block, which is no code of this repository. Its contract (section 6 of the
  specification): a key present in the previous and in the current render has its node
  reused; a key present only in the previous render has its node destroyed; a key present
  only in the current render gets a node created.
\<close>

definition keys_reused :: "key list \<Rightarrow> key list \<Rightarrow> key set" where
  "keys_reused previous current = set previous \<inter> set current"

definition keys_destroyed :: "key list \<Rightarrow> key list \<Rightarrow> key set" where
  "keys_destroyed previous current = set previous - set current"

definition keys_created :: "key list \<Rightarrow> key list \<Rightarrow> key set" where
  "keys_created previous current = set current - set previous"

section \<open>Basic facts about the operations\<close>

subsection \<open>Startup\<close>

lemma App_strategies:
  "trackingStrategy (App P) = js_or (params_get P ''tracking'') ''index''"
  "domStrategy (App P) = js_or (params_get P ''dom'') ''stateless''"
  "changeStrategy (App P) = js_or (params_get P ''change'') ''increment''"
  by (simp_all add: App_def new_items_def Let_def)

lemma App_fields:
  "heap (App P) = ten_items"
  "arr (App P) = [0..<10]"
  "intervals (App P) = [3000]"
  "elements (App P) = []"
  "afterNextRenderQueue (App P) = []"
  "destroyed (App P) = False"
  "trace (App P) = []"
  by (simp_all add: App_def new_items_def Let_def ten_items_def)

lemma App_strategy_values:
  "trackingStrategy (App []) = ''index''"
  "changeStrategy (App []) = ''increment''"
  "trackingStrategy (App [(''tracking'', ''id'')]) = ''id''"
  "changeStrategy (App [(''tracking'', ''id'')]) = ''increment''"
  "trackingStrategy (App [(''tracking'', ''identity'')]) = ''identity''"
  "changeStrategy (App [(''tracking'', ''identity'')]) = ''increment''"
  "trackingStrategy (App [(''tracking'', ''id''), (''change'', ''shuffle'')]) = ''id''"
  "changeStrategy (App [(''tracking'', ''id''), (''change'', ''shuffle'')]) = ''shuffle''"
  by (simp_all add: App_strategies params_get_def js_or_def)

lemma upt_0_10: "[0..<10] = [0, 1, 2, 3, 4, 5, 6, 7, 8, 9::nat]"
  by code_simp

lemma upto_0_9: "[0..9] = [0, 1, 2, 3, 4, 5, 6, 7, 8, 9::int]"
  by code_simp

lemma upto_1_10: "[1..10] = [1, 2, 3, 4, 5, 6, 7, 8, 9, 10::int]"
  by code_simp

lemma ten_items_upto: "ten_items = map (\<lambda>i. \<lparr>id' = i, value' = i\<rparr>) [0..9]"
  by (simp add: ten_items_def upt_0_10 upto_0_9)

lemma App_items: "map (deref (App P)) (arr (App P)) = ten_items"
proof -
  have "map ((!) ten_items) [0..<length ten_items] = ten_items"
    by (rule map_nth)
  moreover have "length ten_items = 10"
    by (simp add: ten_items_def)
  ultimately show ?thesis
    by (simp add: deref_def [abs_def] App_fields)
qed

subsection \<open>Allocation and the increment branch\<close>

lemma map_nth_new_refs: "map ((!) (h @ its)) [length h..<length h + length its] = its"
proof (rule nth_equalityI)
  show "length (map ((!) (h @ its)) [length h..<length h + length its]) = length its"
    by simp
next
  fix i
  assume "i < length (map ((!) (h @ its)) [length h..<length h + length its])"
  then have "i < length its" by simp
  then show "map ((!) (h @ its)) [length h..<length h + length its] ! i = its ! i"
    by (simp add: nth_append)
qed

lemma tick_increment_heap: "heap (tick_increment s) = heap s @ increment_items (map (deref s) (arr s))"
  by (simp add: tick_increment_def new_items_def arr_set_def)

lemma tick_increment_arr: "arr (tick_increment s) = [length (heap s)..<length (heap s) + length (arr s)]"
  by (simp add: tick_increment_def new_items_def arr_set_def increment_items_def)

lemma tick_increment_trace: "trace (tick_increment s) = trace s @ [Published (arr (tick_increment s))]"
  by (simp add: tick_increment_def new_items_def arr_set_def increment_items_def)

lemma tick_increment_frame:
  "trackingStrategy (tick_increment s) = trackingStrategy s"
  "domStrategy (tick_increment s) = domStrategy s"
  "changeStrategy (tick_increment s) = changeStrategy s"
  "intervals (tick_increment s) = intervals s"
  "elements (tick_increment s) = elements s"
  "afterNextRenderQueue (tick_increment s) = afterNextRenderQueue s"
  "destroyed (tick_increment s) = destroyed s"
  by (simp_all add: tick_increment_def new_items_def arr_set_def)

lemma tick_increment_items:
  "map (deref (tick_increment s)) (arr (tick_increment s)) = increment_items (map (deref s) (arr s))"
proof -
  have "length (increment_items (map (deref s) (arr s))) = length (arr s)"
    by (simp add: increment_items_def)
  then show ?thesis
    using map_nth_new_refs [of "heap s" "increment_items (map (deref s) (arr s))"]
    by (simp add: tick_increment_heap tick_increment_arr deref_def [abs_def])
qed

subsection \<open>Adding 1 to a number\<close>

lemma two_power_53: "(2::int) ^ 53 = 9007199254740992"
  by simp

lemma js_add1_safe: "isSafeInteger n \<Longrightarrow> js_add1 n = n + 1"
  by (simp add: isSafeInteger_def js_add1_def)

lemma js_add1_top: "js_add1 9007199254740992 = 9007199254740992"
  by (simp add: js_add1_def)

lemma js_add1_run_number: "run_number n \<Longrightarrow> run_number (js_add1 n)"
  by (simp add: run_number_def js_add1_def)

lemma increment_items_safe:
  assumes "list_all (\<lambda>item. isSafeInteger (id' item) \<and> isSafeInteger (value' item)) its"
  shows "increment_items its = map (\<lambda>item. \<lparr>id' = id' item + 1, value' = value' item + 1\<rparr>) its"
  using assms by (simp add: increment_items_def list_all_iff js_add1_safe)

subsection \<open>One firing of the interval callback\<close>

lemma arr_set_frame:
  "heap (arr_set xs s) = heap s"
  "arr (arr_set xs s) = xs"
  "trackingStrategy (arr_set xs s) = trackingStrategy s"
  "domStrategy (arr_set xs s) = domStrategy s"
  "changeStrategy (arr_set xs s) = changeStrategy s"
  "intervals (arr_set xs s) = intervals s"
  "elements (arr_set xs s) = elements s"
  "afterNextRenderQueue (arr_set xs s) = afterNextRenderQueue s"
  "destroyed (arr_set xs s) = destroyed s"
  "trace (arr_set xs s) = trace s @ [Published xs]"
  by (simp_all add: arr_set_def)

lemma interval_tick_frame:
  assumes "interval_tick s s'"
  shows "trackingStrategy s' = trackingStrategy s"
    and "domStrategy s' = domStrategy s"
    and "changeStrategy s' = changeStrategy s"
    and "intervals s' = intervals s"
    and "elements s' = elements s"
    and "afterNextRenderQueue s' = afterNextRenderQueue s"
    and "destroyed s' = destroyed s"
    and "length (arr s') = length (arr s)"
    and "trace s' = trace s @ [Published (arr s')]"
  using assms
  by (induction rule: interval_tick.induct;
      simp add: tick_increment_frame tick_increment_arr tick_increment_trace arr_set_frame
        sort_random_def; metis size_mset)+

lemma interval_tick_incrementD:
  "interval_tick s s' \<Longrightarrow> changeStrategy s = ''increment'' \<Longrightarrow> s' = tick_increment s"
  by (auto elim: interval_tick.cases)

lemma interval_tick_shuffleD:
  "interval_tick s s' \<Longrightarrow> changeStrategy s \<noteq> ''increment''
     \<Longrightarrow> heap s' = heap s \<and> mset (arr s') = mset (arr s)"
  by (auto elim!: interval_tick.cases simp: arr_set_frame sort_random_def)

lemma App_tick_increment:
  "changeStrategy (App P) = ''increment'' \<Longrightarrow> interval_tick (App P) (tick_increment (App P))"
  by (rule interval_tick.increment) (simp_all add: App_fields)

lemma App_tick_shuffle:
  assumes "changeStrategy (App P) \<noteq> ''increment''"
  shows "interval_tick (App P) (arr_set (rev (arr (App P))) (App P))"
proof -
  have "3000 \<in> set (intervals (App P))"
    by (simp add: App_fields)
  moreover have "sort_random (arr (App P)) (rev (arr (App P)))"
    by (simp add: sort_random_def)
  ultimately show ?thesis
    using assms by (intro interval_tick.shuffle)
qed

lemma ticks_length:
  "rtranclp interval_tick s t \<Longrightarrow> length (arr t) = length (arr s)"
  by (induction rule: rtranclp_induct) (simp_all add: interval_tick_frame)

lemma shuffle_ticks:
  "rtranclp interval_tick s t \<Longrightarrow> changeStrategy s \<noteq> ''increment''
     \<Longrightarrow> heap t = heap s \<and> mset (arr t) = mset (arr s)
         \<and> trackingStrategy t = trackingStrategy s \<and> changeStrategy t = changeStrategy s"
proof (induction rule: rtranclp_induct)
  case base
  then show ?case by simp
next
  case (step t u)
  then have "changeStrategy t \<noteq> ''increment''" by simp
  with step.hyps(2) have "heap u = heap t \<and> mset (arr u) = mset (arr t)"
    by (rule interval_tick_shuffleD)
  with step show ?case
    by (simp add: interval_tick_frame)
qed

subsection \<open>Well-formed snapshots with distinct references\<close>

lemma tick_inv:
  assumes "interval_tick s s'" and "wf s" and "distinct (arr s)"
  shows "wf s' \<and> distinct (arr s')"
  using assms
proof (induction rule: interval_tick.induct)
  case (increment s)
  then show ?case
    by (simp add: wf_def tick_increment_arr tick_increment_heap list_all_iff increment_items_def)
next
  case (shuffle s newArr)
  from shuffle.hyps(3) have m: "mset newArr = mset (arr s)"
    by (simp add: sort_random_def)
  then have "set newArr = set (arr s)" by (rule mset_eq_setD)
  moreover from m have "distinct newArr = distinct (arr s)"
    by (rule mset_eq_imp_distinct_iff)
  ultimately show ?case
    using shuffle.prems by (simp add: wf_def list_all_iff arr_set_frame)
qed

lemma App_inv: "wf (App P) \<and> distinct (arr (App P))"
  by (simp add: wf_def App_fields list_all_iff ten_items_def)

subsection \<open>Keys that do not depend on the position\<close>

lemma trackByFn_no_index:
  "trackingStrategy s \<noteq> ''index'' \<Longrightarrow> trackByFn s i r = trackByFn s 0 r"
  by (simp add: trackByFn_def)

lemma track_keys_no_index:
  assumes "trackingStrategy s \<noteq> ''index''"
  shows "track_keys s = map (trackByFn s 0) (arr s)"
proof -
  have "map (\<lambda>(i, r). trackByFn s i r) (enumerate 0 (arr s))
          = map (\<lambda>p. trackByFn s 0 (snd p)) (enumerate 0 (arr s))"
    using assms by (auto simp: trackByFn_def split: prod.splits)
  also have "\<dots> = map (trackByFn s 0) (map snd (enumerate 0 (arr s)))"
    by (simp only: map_map comp_def)
  also have "\<dots> = map (trackByFn s 0) (arr s)"
    by simp
  finally show ?thesis
    by (simp add: track_keys_def)
qed

lemma track_keys_id:
  "trackingStrategy s = ''id'' \<Longrightarrow> track_keys s = map KNum (map id' (map (deref s) (arr s)))"
  by (simp add: track_keys_no_index trackByFn_def comp_def)

lemma track_keys_identity:
  "trackingStrategy s = ''identity'' \<Longrightarrow> track_keys s = map KObj (arr s)"
  by (simp add: track_keys_no_index trackByFn_def comp_def)

subsection \<open>Reset and the render callbacks\<close>

lemma reset_fields:
  "arr (reset s) = []"
  "elements (reset s) = []"
  "afterNextRenderQueue (reset s) = afterNextRenderQueue s @ [ResetCallback]"
  "trace (reset s) = trace s @ [Published [], RegistryCleared]"
  "heap (reset s) = heap s"
  "intervals (reset s) = intervals s"
  by (simp_all add: reset_def elements_clear_def afterNextRender_def arr_set_def)

lemma run_callback_fields:
  "heap (run_callback cb s) = heap s @ ten_items"
  "arr (run_callback cb s) = [length (heap s)..<length (heap s) + 10]"
  "elements (run_callback cb s) = elements s"
  "afterNextRenderQueue (run_callback cb s) = afterNextRenderQueue s"
  "intervals (run_callback cb s) = intervals s"
  "trace (run_callback cb s) = trace s @ [Published (arr (run_callback cb s))]"
  by (cases cb; simp add: new_items_def arr_set_def ten_items_def)+

lemma run_callback_items: "map (deref (run_callback cb s)) (arr (run_callback cb s)) = ten_items"
proof -
  have "length ten_items = 10"
    by (simp add: ten_items_def)
  then show ?thesis
    using map_nth_new_refs [of "heap s" ten_items]
    by (simp add: run_callback_fields deref_def [abs_def])
qed

lemma fold_run_callback_fields:
  "elements (fold run_callback q s) = elements s
   \<and> afterNextRenderQueue (fold run_callback q s) = afterNextRenderQueue s
   \<and> intervals (fold run_callback q s) = intervals s
   \<and> take (length (trace s)) (trace (fold run_callback q s)) = trace s"
proof (induction q arbitrary: s)
  case Nil
  show ?case by simp
next
  case (Cons cb q)
  have "take (length (trace s)) (trace (fold run_callback q (run_callback cb s)))
          = take (length (trace s))
              (take (length (trace (run_callback cb s))) (trace (fold run_callback q (run_callback cb s))))"
    by (simp add: run_callback_fields min_def)
  also have "\<dots> = take (length (trace s)) (trace (run_callback cb s))"
    by (simp only: Cons.IH)
  also have "\<dots> = trace s"
    by (simp add: run_callback_fields)
  finally show ?case
    by (simp add: Cons.IH run_callback_fields)
qed

lemma render_done_reset:
  "render_done (reset s)
     = run_callback ResetCallback
         (fold run_callback (afterNextRenderQueue s) ((reset s)\<lparr>afterNextRenderQueue := []\<rparr>))"
  by (simp add: render_done_def reset_fields)

subsection \<open>The snapshot along the events\<close>

lemma run_callback_inv:
  "wf (run_callback cb s) \<and> distinct (arr (run_callback cb s)) \<and> length (arr (run_callback cb s)) = 10"
  by (simp add: wf_def run_callback_fields list_all_iff ten_items_def del: run_callback.simps)

lemma fold_run_callback_inv:
  assumes "wf s \<and> distinct (arr s) \<and> (length (arr s) = 10 \<or> arr s = [])"
  shows "wf (fold run_callback q s) \<and> distinct (arr (fold run_callback q s))
         \<and> (length (arr (fold run_callback q s)) = 10 \<or> arr (fold run_callback q s) = [])"
  using assms
proof (induction q arbitrary: s)
  case Nil
  then show ?case by simp
next
  case (Cons cb q)
  have "wf (run_callback cb s) \<and> distinct (arr (run_callback cb s))
        \<and> (length (arr (run_callback cb s)) = 10 \<or> arr (run_callback cb s) = [])"
    using run_callback_inv [of cb s] by simp
  then show ?case
    using Cons.IH [of "run_callback cb s"] by simp
qed

lemma step_inv:
  assumes "step s s'" and "wf s \<and> distinct (arr s) \<and> (length (arr s) = 10 \<or> arr s = [])"
  shows "wf s' \<and> distinct (arr s') \<and> (length (arr s') = 10 \<or> arr s' = [])"
  using assms
proof (induction rule: step.induct)
  case (tick s s')
  then show ?case
    using tick_inv [of s s'] interval_tick_frame(8) [of s s'] by auto
next
  case (effect_run s)
  then show ?case
    by (simp add: wf_def reset_fields)
next
  case (rendered s)
  then have "wf (s\<lparr>afterNextRenderQueue := []\<rparr>) \<and> distinct (arr (s\<lparr>afterNextRenderQueue := []\<rparr>))
      \<and> (length (arr (s\<lparr>afterNextRenderQueue := []\<rparr>)) = 10 \<or> arr (s\<lparr>afterNextRenderQueue := []\<rparr>) = [])"
    by (simp add: wf_def)
  then show ?case
    unfolding render_done_def by (rule fold_run_callback_inv)
qed (simp_all add: wf_def onTrackingStrategyChange_def onDomStrategyChange_def
      onChangeStrategyChange_def teardown_def)

lemma steps_inv:
  "rtranclp step (App P) s \<Longrightarrow> wf s \<and> distinct (arr s) \<and> (length (arr s) = 10 \<or> arr s = [])"
proof (induction rule: rtranclp_induct)
  case base
  show ?case using App_inv [of P] by (simp add: App_fields)
next
  case (step t u)
  from step.hyps(2) step.IH show ?case by (rule step_inv)
qed

subsection \<open>The numbers along the events\<close>

lemma ten_items_run_numbers:
  "list_all (\<lambda>item. run_number (id' item) \<and> run_number (value' item)) ten_items"
  by (simp add: ten_items_def upt_0_10 run_number_def)

lemma run_callback_numbers: "run_numbers s \<Longrightarrow> run_numbers (run_callback cb s)"
  using ten_items_run_numbers
  by (simp add: run_numbers_def run_callback_fields del: run_callback.simps)

lemma fold_run_callback_numbers: "run_numbers s \<Longrightarrow> run_numbers (fold run_callback q s)"
  by (induction q arbitrary: s) (simp_all add: run_callback_numbers del: run_callback.simps)

lemma tick_numbers:
  assumes "interval_tick s s'" and "wf s" and "run_numbers s"
  shows "run_numbers s'"
  using assms
proof (induction rule: interval_tick.induct)
  case (increment s)
  have "run_number (id' (deref s r)) \<and> run_number (value' (deref s r))" if "r \<in> set (arr s)" for r
  proof -
    from that increment.prems(1) have "r < length (heap s)"
      by (simp add: wf_def list_all_iff)
    then have "heap s ! r \<in> set (heap s)"
      by simp
    with increment.prems(2) show ?thesis
      by (simp add: run_numbers_def list_all_iff deref_def)
  qed
  then have "list_all (\<lambda>item. run_number (id' item) \<and> run_number (value' item))
               (increment_items (map (deref s) (arr s)))"
    by (simp add: increment_items_def list_all_iff js_add1_run_number)
  with increment.prems(2) show ?case
    by (simp add: run_numbers_def tick_increment_heap)
next
  case (shuffle s newArr)
  then show ?case
    by (simp add: run_numbers_def arr_set_frame)
qed

lemma step_numbers:
  assumes "step s s'" and "wf s" and "run_numbers s"
  shows "run_numbers s'"
  using assms
proof (induction rule: step.induct)
  case (tick s s')
  then show ?case by (rule tick_numbers)
next
  case (rendered s)
  then have "run_numbers (s\<lparr>afterNextRenderQueue := []\<rparr>)"
    by (simp add: run_numbers_def)
  then show ?case
    unfolding render_done_def by (rule fold_run_callback_numbers)
qed (simp_all add: run_numbers_def onTrackingStrategyChange_def onDomStrategyChange_def
      onChangeStrategyChange_def teardown_def reset_fields)

lemma steps_numbers: "rtranclp step (App P) s \<Longrightarrow> run_numbers s"
proof (induction rule: rtranclp_induct)
  case base
  show ?case
    using ten_items_run_numbers by (simp add: run_numbers_def App_fields)
next
  case (step t u)
  from step.hyps(1) have "wf t"
    using steps_inv by blast
  with step.hyps(2) show ?case
    using step.IH by (rule step_numbers)
qed

subsection \<open>The interval timer along the events\<close>

lemma step_intervals: "step s s' \<Longrightarrow> intervals s' = intervals s"
proof (induction rule: step.induct)
  case (tick s s')
  then show ?case by (rule interval_tick_frame)
next
  case (rendered s)
  show ?case
    using fold_run_callback_fields [of "afterNextRenderQueue s" "s\<lparr>afterNextRenderQueue := []\<rparr>"]
    by (simp add: render_done_def)
qed (simp_all add: onTrackingStrategyChange_def onDomStrategyChange_def
      onChangeStrategyChange_def reset_fields teardown_def)

lemma steps_intervals: "rtranclp step s t \<Longrightarrow> intervals t = intervals s"
  by (induction rule: rtranclp_induct) (simp_all add: step_intervals)

lemma tick_enabled:
  assumes "3000 \<in> set (intervals s)"
  shows "\<exists>s'. interval_tick s s'"
proof (cases "changeStrategy s = ''increment''")
  case True
  with assms have "interval_tick s (tick_increment s)"
    by (rule interval_tick.increment)
  then show ?thesis ..
next
  case False
  have "sort_random (arr s) (arr s)"
    by (simp add: sort_random_def)
  with assms False have "interval_tick s (arr_set (arr s) s)"
    by (rule interval_tick.shuffle)
  then show ?thesis ..
qed

section \<open>The first tick under increment and id tracking\<close>

text \<open>
  C1: under the \<open>increment\<close> change strategy with the \<open>id\<close> tracking strategy, a
  mutation tick on the initial snapshot \<open>[{id:0,value:0} .. {id:9,value:9}]\<close> (the one of
  the new component, and the one that every reset publishes) gives
  \<open>[{id:1,value:1} .. {id:10,value:10}]\<close>. The keys are \<open>{0..9}\<close> before the tick and
  \<open>{1..10}\<close> after it, so by the reconciler's contract the keys \<open>{1..9}\<close> are reused, the
  key \<open>0\<close> is destroyed and the key \<open>10\<close> is created: exactly one node is created.
\<close>

theorem C1_increment_id_first_tick:
  assumes "map (deref s) (arr s) = map (\<lambda>i. \<lparr>id' = i, value' = i\<rparr>) [0..9]"
    and "trackingStrategy s = ''id''"
    and "changeStrategy s = ''increment''"
    and "interval_tick s s'"
  shows "map (deref s') (arr s') = map (\<lambda>i. \<lparr>id' = i, value' = i\<rparr>) [1..10]
         \<and> set (track_keys s) = KNum ` {0..9}
         \<and> set (track_keys s') = KNum ` {1..10}
         \<and> keys_reused (track_keys s) (track_keys s') = KNum ` {1..9}
         \<and> keys_destroyed (track_keys s) (track_keys s') = {KNum 0}
         \<and> keys_created (track_keys s) (track_keys s') = {KNum 10}
         \<and> card (keys_created (track_keys s) (track_keys s')) = 1"
proof -
  note before = assms(1)
  have eq: "s' = tick_increment s"
    using assms(4) assms(3) by (rule interval_tick_incrementD)
  have "map (deref s') (arr s') = increment_items (map (deref s) (arr s))"
    unfolding eq by (rule tick_increment_items)
  also have "\<dots> = map (\<lambda>i. \<lparr>id' = i, value' = i\<rparr>) [1..10]"
    unfolding before by (simp add: increment_items_def js_add1_def upto_0_9 upto_1_10)
  finally have after: "map (deref s') (arr s') = map (\<lambda>i. \<lparr>id' = i, value' = i\<rparr>) [1..10]" .
  have tr: "trackingStrategy s' = ''id''"
    using interval_tick_frame(1) [OF assms(4)] assms(2) by simp
  have k: "track_keys s = map KNum [0..9]"
    unfolding track_keys_id [OF assms(2)] before by (simp add: comp_def)
  have k': "track_keys s' = map KNum [1..10]"
    unfolding track_keys_id [OF tr] after by (simp add: comp_def)
  have inj: "inj KNum"
    by (simp add: inj_def)
  have s: "set (track_keys s) = KNum ` {0..9}"
    unfolding k by (simp only: set_map set_upto)
  have s': "set (track_keys s') = KNum ` {1..10}"
    unfolding k' by (simp only: set_map set_upto)
  have "{0..9} \<inter> {1..10} = {1..9::int}" by auto
  then have r: "keys_reused (track_keys s) (track_keys s') = KNum ` {1..9}"
    unfolding keys_reused_def s s' image_Int [OF inj, symmetric] by simp
  have "{0..9} - {1..10} = {0::int}" by auto
  then have d: "keys_destroyed (track_keys s) (track_keys s') = {KNum 0}"
    unfolding keys_destroyed_def s s' image_set_diff [OF inj, symmetric] by simp
  have "{1..10} - {0..9} = {10::int}" by auto
  then have c: "keys_created (track_keys s) (track_keys s') = {KNum 10}"
    unfolding keys_created_def s s' image_set_diff [OF inj, symmetric] by simp
  from after s s' r d c show ?thesis by simp
qed

theorem C1_increment_id_first_tick_witness:
  "map (deref (App [(''tracking'', ''id'')])) (arr (App [(''tracking'', ''id'')]))
        = map (\<lambda>i. \<lparr>id' = i, value' = i\<rparr>) [0..9]
   \<and> trackingStrategy (App [(''tracking'', ''id'')]) = ''id''
   \<and> changeStrategy (App [(''tracking'', ''id'')]) = ''increment''
   \<and> interval_tick (App [(''tracking'', ''id'')]) (tick_increment (App [(''tracking'', ''id'')]))
   \<and> map (deref (tick_increment (App [(''tracking'', ''id'')])))
        (arr (tick_increment (App [(''tracking'', ''id'')])))
        = map (\<lambda>i. \<lparr>id' = i, value' = i\<rparr>) [1..10]
   \<and> keys_reused (track_keys (App [(''tracking'', ''id'')]))
        (track_keys (tick_increment (App [(''tracking'', ''id'')]))) = KNum ` {1..9}
   \<and> keys_destroyed (track_keys (App [(''tracking'', ''id'')]))
        (track_keys (tick_increment (App [(''tracking'', ''id'')]))) = {KNum 0}
   \<and> keys_created (track_keys (App [(''tracking'', ''id'')]))
        (track_keys (tick_increment (App [(''tracking'', ''id'')]))) = {KNum 10}"
proof -
  have i: "map (deref (App [(''tracking'', ''id'')])) (arr (App [(''tracking'', ''id'')]))
             = map (\<lambda>i. \<lparr>id' = i, value' = i\<rparr>) [0..9]"
    by (simp only: App_items ten_items_upto)
  have a: "trackingStrategy (App [(''tracking'', ''id'')]) = ''id''"
    by (rule App_strategy_values)
  have b: "changeStrategy (App [(''tracking'', ''id'')]) = ''increment''"
    by (rule App_strategy_values)
  have c: "interval_tick (App [(''tracking'', ''id'')]) (tick_increment (App [(''tracking'', ''id'')]))"
    using b by (rule App_tick_increment)
  from C1_increment_id_first_tick [OF i a b c] i a b c show ?thesis
    by blast
qed

section \<open>The shuffle branch rearranges the same objects\<close>

text \<open>
  What a mutation tick does when the change strategy is not \<open>increment\<close>, as far as it
  does not depend on chance: the store is untouched (no object is created, none is
  changed), and the published list holds the same references, each as often as before;
  so it has the same length and shows the same items. How the order is distributed is a
  matter of \<^verbatim>\<open>Math.random\<close> and of the engine's sort, and has no counterpart here.
\<close>

lemma shuffle_tick_permutes:
  assumes "interval_tick s s'" and "changeStrategy s \<noteq> ''increment''"
  shows "heap s' = heap s \<and> mset (arr s') = mset (arr s)
         \<and> length (arr s') = length (arr s)
         \<and> mset (map (deref s') (arr s')) = mset (map (deref s) (arr s))"
proof -
  have h: "heap s' = heap s" and m: "mset (arr s') = mset (arr s)"
    using interval_tick_shuffleD [OF assms] by simp_all
  have d: "deref s' = deref s"
    by (simp add: fun_eq_iff deref_def h)
  have "mset (map (deref s') (arr s')) = image_mset (deref s) (mset (arr s'))"
    by (simp add: d)
  also have "\<dots> = mset (map (deref s) (arr s))"
    by (simp add: m)
  finally show ?thesis
    using h m interval_tick_frame(8) [OF assms(1)] by simp
qed

section \<open>The order of the steps of reset\<close>

text \<open>
  C3, as stated: \<open>reset\<close> publishes the empty list, publishes the ten new items after the
  next render, and clears the registry after that second publication. The third step
  does not wait: with one entry in the registry, the registry is already empty when
  \<open>reset\<close> returns, while the list is still empty and the callback still waits; the
  observable writes are: empty list, registry cleared, and only then the ten new items.
\<close>

theorem C3_registry_cleared_first:
  "elements ((App [])\<lparr>elements := [(0, ''0'')]\<rparr>) \<noteq> []
   \<and> arr (reset ((App [])\<lparr>elements := [(0, ''0'')]\<rparr>)) = []
   \<and> elements (reset ((App [])\<lparr>elements := [(0, ''0'')]\<rparr>)) = []
   \<and> afterNextRenderQueue (reset ((App [])\<lparr>elements := [(0, ''0'')]\<rparr>)) = [ResetCallback]
   \<and> trace (reset ((App [])\<lparr>elements := [(0, ''0'')]\<rparr>)) = [Published [], RegistryCleared]
   \<and> trace (render_done (reset ((App [])\<lparr>elements := [(0, ''0'')]\<rparr>)))
        = [Published [], RegistryCleared, Published [10..<20]]
   \<and> trace (render_done (reset ((App [])\<lparr>elements := [(0, ''0'')]\<rparr>)))
        \<noteq> [Published [], Published [10..<20], RegistryCleared]"
  by (simp add: render_done_def reset_def elements_clear_def afterNextRender_def arr_set_def
      new_items_def App_fields ten_items_def)

text \<open>
  C3, amended: \<open>reset\<close> (1) publishes an empty list snapshot at once, (2) registers a
  callback that publishes a new snapshot of ten items with \<open>id = value = index\<close>, for the
  indices \<open>0..9\<close>, only after the next render has completed, and (3) clears the registry at
  once, in the same call: step 3 happens before the publication of step 2, not after it.
\<close>

theorem C3_reset_order:
  "arr (reset s) = []
   \<and> elements (reset s) = []
   \<and> afterNextRenderQueue (reset s) = afterNextRenderQueue s @ [ResetCallback]
   \<and> trace (reset s) = trace s @ [Published [], RegistryCleared]
   \<and> map (deref (render_done (reset s))) (arr (render_done (reset s)))
        = map (\<lambda>i. \<lparr>id' = i, value' = i\<rparr>) [0..9]
   \<and> take (length (trace (reset s))) (trace (render_done (reset s))) = trace (reset s)
   \<and> last (trace (render_done (reset s))) = Published (arr (render_done (reset s)))
   \<and> (afterNextRenderQueue s = [] \<longrightarrow>
        trace (render_done (reset s))
          = trace s @ [Published [], RegistryCleared, Published (arr (render_done (reset s)))])"
proof -
  define u where "u = fold run_callback (afterNextRenderQueue s) ((reset s)\<lparr>afterNextRenderQueue := []\<rparr>)"
  have r: "render_done (reset s) = run_callback ResetCallback u"
    unfolding u_def by (rule render_done_reset)
  have u: "elements u = []" "afterNextRenderQueue u = []"
    "take (length (trace (reset s))) (trace u) = trace (reset s)"
    using fold_run_callback_fields [of "afterNextRenderQueue s" "(reset s)\<lparr>afterNextRenderQueue := []\<rparr>"]
    by (simp_all add: u_def reset_fields)
  have items: "map (deref (render_done (reset s))) (arr (render_done (reset s)))
                 = map (\<lambda>i. \<lparr>id' = i, value' = i\<rparr>) [0..9]"
    unfolding r run_callback_items by (rule ten_items_upto)
  have tr: "trace (render_done (reset s)) = trace u @ [Published (arr (render_done (reset s)))]"
    unfolding r by (rule run_callback_fields)
  have "length (take (length (trace (reset s))) (trace u)) = length (trace (reset s))"
    by (simp only: u(3))
  then have "length (trace (reset s)) \<le> length (trace u)"
    by simp
  then have pre: "take (length (trace (reset s))) (trace (render_done (reset s))) = trace (reset s)"
    using u(3) by (simp add: tr)
  have lst: "last (trace (render_done (reset s))) = Published (arr (render_done (reset s)))"
    by (subst tr) simp
  have emp: "trace (render_done (reset s))
          = trace s @ [Published [], RegistryCleared, Published (arr (render_done (reset s)))]"
    if "afterNextRenderQueue s = []"
  proof -
    from that have "u = (reset s)\<lparr>afterNextRenderQueue := []\<rparr>"
      by (simp add: u_def)
    then have "trace u = trace s @ [Published [], RegistryCleared]"
      by (simp add: reset_fields)
    with tr show ?thesis by simp
  qed
  from items pre lst emp show ?thesis
    by (simp add: reset_fields)
qed

theorem C3_reset_order_witness:
  "afterNextRenderQueue (App [(''tracking'', ''id'')]) = []
   \<and> arr (reset (App [(''tracking'', ''id'')])) = []
   \<and> elements (reset (App [(''tracking'', ''id'')])) = []
   \<and> arr (render_done (reset (App [(''tracking'', ''id'')]))) = [10..<20]
   \<and> trace (render_done (reset (App [(''tracking'', ''id'')])))
        = [Published [], RegistryCleared, Published [10..<20]]"
proof -
  have q: "afterNextRenderQueue (App [(''tracking'', ''id'')]) = []"
    by (simp add: App_fields)
  have a: "arr (render_done (reset (App [(''tracking'', ''id'')]))) = [10..<20]"
    by (simp add: render_done_def reset_def elements_clear_def afterNextRender_def arr_set_def
        new_items_def App_fields ten_items_def)
  from C3_reset_order [of "App [(''tracking'', ''id'')]"] q a show ?thesis
    by (simp add: App_fields)
qed

section \<open>Startup strategies\<close>

text \<open>
  C4, as stated: any unknown or missing query-parameter value falls back to the default.
  It fails for an unknown value: \<^verbatim>\<open>?tracking=foo&dom=bar&change=baz\<close> starts the
  component with exactly these three strings as its strategies.
\<close>

theorem C4_unknown_value_kept:
  "trackingStrategy (App [(''tracking'', ''foo''), (''dom'', ''bar''), (''change'', ''baz'')]) = ''foo''
   \<and> trackingStrategy (App [(''tracking'', ''foo''), (''dom'', ''bar''), (''change'', ''baz'')]) \<noteq> ''index''
   \<and> domStrategy (App [(''tracking'', ''foo''), (''dom'', ''bar''), (''change'', ''baz'')]) = ''bar''
   \<and> domStrategy (App [(''tracking'', ''foo''), (''dom'', ''bar''), (''change'', ''baz'')]) \<noteq> ''stateless''
   \<and> changeStrategy (App [(''tracking'', ''foo''), (''dom'', ''bar''), (''change'', ''baz'')]) = ''baz''
   \<and> changeStrategy (App [(''tracking'', ''foo''), (''dom'', ''bar''), (''change'', ''baz'')]) \<noteq> ''increment''"
  by (simp add: App_strategies params_get_def js_or_def)

text \<open>
  C4, amended: at startup each of the three strategies is the default of
  \<open>{index, stateless, increment}\<close> when its query parameter is missing or is the empty
  string; every other value, known or unknown, becomes the strategy as it is written.
\<close>

theorem C4_startup_strategies:
  "(params_get P ''tracking'' = None \<or> params_get P ''tracking'' = Some ''''
      \<longrightarrow> trackingStrategy (App P) = ''index'')
   \<and> (params_get P ''dom'' = None \<or> params_get P ''dom'' = Some ''''
      \<longrightarrow> domStrategy (App P) = ''stateless'')
   \<and> (params_get P ''change'' = None \<or> params_get P ''change'' = Some ''''
      \<longrightarrow> changeStrategy (App P) = ''increment'')
   \<and> (\<forall>v. params_get P ''tracking'' = Some v \<and> v \<noteq> '''' \<longrightarrow> trackingStrategy (App P) = v)
   \<and> (\<forall>v. params_get P ''dom'' = Some v \<and> v \<noteq> '''' \<longrightarrow> domStrategy (App P) = v)
   \<and> (\<forall>v. params_get P ''change'' = Some v \<and> v \<noteq> '''' \<longrightarrow> changeStrategy (App P) = v)"
  by (auto simp: App_strategies js_or_def)

theorem C4_startup_strategies_witness:
  "params_get [(''dom'', ''''), (''change'', ''shuffle'')] ''tracking'' = None
   \<and> trackingStrategy (App [(''dom'', ''''), (''change'', ''shuffle'')]) = ''index''
   \<and> params_get [(''dom'', ''''), (''change'', ''shuffle'')] ''dom'' = Some ''''
   \<and> domStrategy (App [(''dom'', ''''), (''change'', ''shuffle'')]) = ''stateless''
   \<and> params_get [(''dom'', ''''), (''change'', ''shuffle'')] ''change'' = Some ''shuffle''
   \<and> changeStrategy (App [(''dom'', ''''), (''change'', ''shuffle'')]) = ''shuffle''"
  using C4_startup_strategies [of "[(''dom'', ''''), (''change'', ''shuffle'')]"]
  by (simp add: params_get_def)

section \<open>The interval timer and teardown\<close>

text \<open>
  C5, as stated: after the owning view has been torn down, no mutation tick occurs any
  more. The component has no teardown code, so the timer stays registered: after a
  teardown of the new component the interval callback fires and publishes the next
  snapshot.
\<close>

theorem C5_tick_after_teardown:
  "destroyed (teardown (App []))
   \<and> interval_tick (teardown (App [])) (tick_increment (teardown (App [])))
   \<and> arr (teardown (App [])) = [0..<10]
   \<and> arr (tick_increment (teardown (App []))) = [10..<20]"
proof -
  have i: "3000 \<in> set (intervals (teardown (App [])))"
    by (simp add: teardown_def App_fields)
  have c: "changeStrategy (teardown (App [])) = ''increment''"
    by (simp add: teardown_def App_strategies params_get_def js_or_def)
  have t: "interval_tick (teardown (App [])) (tick_increment (teardown (App [])))"
    using i c by (rule interval_tick.increment)
  show ?thesis
    using t by (simp add: tick_increment_arr) (simp add: teardown_def App_fields ten_items_def)
qed

text \<open>
  C5, amended: the interval timer of the mutation driver is never cancelled. A teardown
  leaves the registered timers as they are, and in every state that the component
  reaches from startup, torn down or not, the timer of period 3000 is registered and a
  mutation tick can occur.
\<close>

theorem C5_timer_never_cancelled:
  "intervals (teardown s) = intervals s
   \<and> (rtranclp step (App P) t \<longrightarrow> intervals t = [3000] \<and> (\<exists>t'. interval_tick t t'))"
proof -
  have "intervals t = [3000] \<and> (\<exists>t'. interval_tick t t')" if "rtranclp step (App P) t"
  proof -
    from that have i: "intervals t = [3000]"
      by (simp add: steps_intervals App_fields)
    then have "3000 \<in> set (intervals t)" by simp
    then have "\<exists>t'. interval_tick t t'" by (rule tick_enabled)
    with i show ?thesis by simp
  qed
  then show ?thesis
    by (simp add: teardown_def)
qed

theorem C5_timer_never_cancelled_witness:
  "rtranclp step (App []) (teardown (App []))
   \<and> destroyed (teardown (App []))
   \<and> intervals (teardown (App [])) = [3000]
   \<and> (\<exists>t'. interval_tick (teardown (App [])) t')"
proof -
  have "step (App []) (teardown (App []))"
    by (rule step.torn_down)
  then have r: "rtranclp step (App []) (teardown (App []))" ..
  have d: "destroyed (teardown (App []))"
    by (simp add: teardown_def)
  from C5_timer_never_cancelled [of "App []" "[]" "teardown (App [])"] r d
  show ?thesis by blast
qed

section \<open>The increment branch\<close>

text \<open>
  C6, as stated: for every snapshot, a mutation tick under the \<open>increment\<close> strategy
  publishes the old items, each mapped to a new item with \<open>id + 1\<close> and \<open>value + 1\<close>. The
  fields are doubles, and the claim fails where the addition is no longer exact: on the
  snapshot with the ids and values \<open>2^53 - 9 .. 2^53\<close> (the one that ticks lead to from
  \<open>0 .. 9\<close>), the last item keeps the id and the value \<open>2^53\<close>.
\<close>

theorem C6_increment_rounds_at_2_53:
  "interval_tick
      ((App [])\<lparr>heap := map (\<lambda>i. \<lparr>id' = i, value' = i\<rparr>) [9007199254740983..9007199254740992]\<rparr>)
      (tick_increment
        ((App [])\<lparr>heap := map (\<lambda>i. \<lparr>id' = i, value' = i\<rparr>) [9007199254740983..9007199254740992]\<rparr>))
   \<and> changeStrategy
        ((App [])\<lparr>heap := map (\<lambda>i. \<lparr>id' = i, value' = i\<rparr>) [9007199254740983..9007199254740992]\<rparr>)
       = ''increment''
   \<and> deref ((App [])\<lparr>heap := map (\<lambda>i. \<lparr>id' = i, value' = i\<rparr>) [9007199254740983..9007199254740992]\<rparr>)
        (arr ((App [])\<lparr>heap := map (\<lambda>i. \<lparr>id' = i, value' = i\<rparr>) [9007199254740983..9007199254740992]\<rparr>) ! 9)
       = \<lparr>id' = 9007199254740992, value' = 9007199254740992\<rparr>
   \<and> deref (tick_increment
          ((App [])\<lparr>heap := map (\<lambda>i. \<lparr>id' = i, value' = i\<rparr>) [9007199254740983..9007199254740992]\<rparr>))
        (arr (tick_increment
          ((App [])\<lparr>heap := map (\<lambda>i. \<lparr>id' = i, value' = i\<rparr>) [9007199254740983..9007199254740992]\<rparr>)) ! 9)
       = \<lparr>id' = 9007199254740992, value' = 9007199254740992\<rparr>
   \<and> map (deref (tick_increment
          ((App [])\<lparr>heap := map (\<lambda>i. \<lparr>id' = i, value' = i\<rparr>) [9007199254740983..9007199254740992]\<rparr>)))
        (arr (tick_increment
          ((App [])\<lparr>heap := map (\<lambda>i. \<lparr>id' = i, value' = i\<rparr>) [9007199254740983..9007199254740992]\<rparr>)))
       \<noteq> map (\<lambda>item. \<lparr>id' = id' item + 1, value' = value' item + 1\<rparr>)
           (map (deref ((App [])\<lparr>heap := map (\<lambda>i. \<lparr>id' = i, value' = i\<rparr>) [9007199254740983..9007199254740992]\<rparr>))
             (arr ((App [])\<lparr>heap := map (\<lambda>i. \<lparr>id' = i, value' = i\<rparr>) [9007199254740983..9007199254740992]\<rparr>)))"
proof -
  define X where
    "X = (App [])\<lparr>heap := map (\<lambda>i. \<lparr>id' = i, value' = i\<rparr>) [9007199254740983..9007199254740992]\<rparr>"
  have top: "[9007199254740983..9007199254740992]
      = [9007199254740983, 9007199254740984, 9007199254740985, 9007199254740986,
         9007199254740987, 9007199254740988, 9007199254740989, 9007199254740990,
         9007199254740991, 9007199254740992::int]"
    by code_simp
  have h: "heap X = map (\<lambda>i. \<lparr>id' = i, value' = i\<rparr>) [9007199254740983..9007199254740992]"
    and a: "arr X = [0..<10]" and i: "3000 \<in> set (intervals X)"
    and c: "changeStrategy X = ''increment''"
    by (simp_all add: X_def App_fields App_strategy_values)
  have t: "interval_tick X (tick_increment X)"
    using i c by (rule interval_tick.increment)
  have before: "map (deref X) (arr X)
      = map (\<lambda>i. \<lparr>id' = i, value' = i\<rparr>) [9007199254740983..9007199254740992]"
  proof -
    have len10: "length (heap X) = 10"
      by (simp add: h top)
    have "map ((!) (heap X)) [0..<10] = heap X"
      using map_nth [of "heap X"] unfolding len10 .
    then have "map (deref X) (arr X) = heap X"
      by (simp only: a deref_def [abs_def])
    then show ?thesis
      by (simp only: h)
  qed
  have after: "map (deref (tick_increment X)) (arr (tick_increment X))
      = map (\<lambda>i. \<lparr>id' = i, value' = i\<rparr>)
          [9007199254740984, 9007199254740985, 9007199254740986, 9007199254740987,
           9007199254740988, 9007199254740989, 9007199254740990, 9007199254740991,
           9007199254740992, 9007199254740992]"
    unfolding tick_increment_items before
    by (simp add: top increment_items_def js_add1_def)
  have last_before: "deref X (arr X ! 9) = \<lparr>id' = 9007199254740992, value' = 9007199254740992\<rparr>"
    using arg_cong [OF before, of "\<lambda>xs. xs ! 9"] by (simp add: a top)
  have len: "length (arr (tick_increment X)) = 10"
    by (simp add: tick_increment_arr a)
  have last_after: "deref (tick_increment X) (arr (tick_increment X) ! 9)
      = \<lparr>id' = 9007199254740992, value' = 9007199254740992\<rparr>"
    using arg_cong [OF after, of "\<lambda>xs. xs ! 9"] len by simp
  have differ: "map (deref (tick_increment X)) (arr (tick_increment X))
      \<noteq> map (\<lambda>item. \<lparr>id' = id' item + 1, value' = value' item + 1\<rparr>) (map (deref X) (arr X))"
    unfolding after before by (simp add: top)
  from t c last_before last_after differ show ?thesis
    unfolding X_def by simp
qed

text \<open>
  C6, amended: for every snapshot whose ids and values are safe integers (of magnitude
  below \<open>2^53\<close>), a mutation tick under the \<open>increment\<close> strategy publishes a new snapshot
  whose items are the old items, in order, each mapped to a new item with \<open>id + 1\<close> and
  \<open>value + 1\<close>; the length is the same. The items of the new snapshot are new objects, and
  the objects of the store are left as they were.
\<close>

theorem C6_increment_tick:
  assumes "interval_tick s s'" and "changeStrategy s = ''increment''"
    and "list_all (\<lambda>item. isSafeInteger (id' item) \<and> isSafeInteger (value' item))
           (map (deref s) (arr s))"
  shows "map (deref s') (arr s')
           = map (\<lambda>item. \<lparr>id' = id' item + 1, value' = value' item + 1\<rparr>) (map (deref s) (arr s))
         \<and> length (arr s') = length (arr s)
         \<and> trace s' = trace s @ [Published (arr s')]
         \<and> list_all (\<lambda>r. length (heap s) \<le> r \<and> r < length (heap s')) (arr s')
         \<and> take (length (heap s)) (heap s') = heap s"
proof -
  have eq: "s' = tick_increment s"
    using assms(1,2) by (rule interval_tick_incrementD)
  have items: "map (deref s') (arr s')
      = map (\<lambda>item. \<lparr>id' = id' item + 1, value' = value' item + 1\<rparr>) (map (deref s) (arr s))"
    unfolding eq tick_increment_items using assms(3) by (rule increment_items_safe)
  have len: "length (arr s') = length (arr s)"
    using assms(1) by (rule interval_tick_frame)
  have tr: "trace s' = trace s @ [Published (arr s')]"
    using assms(1) by (rule interval_tick_frame)
  have fresh: "list_all (\<lambda>r. length (heap s) \<le> r \<and> r < length (heap s')) (arr s')"
    unfolding eq tick_increment_arr tick_increment_heap
    by (simp add: list_all_iff increment_items_def)
  have old: "take (length (heap s)) (heap s') = heap s"
    unfolding eq tick_increment_heap by simp
  from items len tr fresh old show ?thesis by simp
qed

theorem C6_increment_tick_witness:
  "interval_tick (App []) (tick_increment (App []))
   \<and> changeStrategy (App []) = ''increment''
   \<and> list_all (\<lambda>item. isSafeInteger (id' item) \<and> isSafeInteger (value' item))
        (map (deref (App [])) (arr (App [])))
   \<and> map (deref (tick_increment (App []))) (arr (tick_increment (App [])))
        = map (\<lambda>i. \<lparr>id' = i, value' = i\<rparr>) [1..10]
   \<and> length (arr (tick_increment (App []))) = length (arr (App []))"
proof -
  have b: "changeStrategy (App []) = ''increment''"
    by (rule App_strategy_values)
  have c: "interval_tick (App []) (tick_increment (App []))"
    using b by (rule App_tick_increment)
  have s: "list_all (\<lambda>item. isSafeInteger (id' item) \<and> isSafeInteger (value' item))
        (map (deref (App [])) (arr (App [])))"
    by (simp add: App_items ten_items_upto upto_0_9 isSafeInteger_def)
  have i: "map (\<lambda>item. \<lparr>id' = id' item + 1, value' = value' item + 1\<rparr>)
        (map (deref (App [])) (arr (App []))) = map (\<lambda>i. \<lparr>id' = i, value' = i\<rparr>) [1..10]"
    by (simp add: App_items ten_items_upto upto_0_9 upto_1_10)
  from C6_increment_tick [OF c b s] b c s i show ?thesis
    by simp
qed

section \<open>The key selector returns what its strategy names\<close>

text \<open>
  C7: the key selector is a function of the strategy, the position and the item only, and
  writes nothing (the embedding returns a key and no state, as the body of
  \<^verbatim>\<open>trackByFn\<close> holds no assignment). It returns the position under \<open>index\<close>, the
  item's id under \<open>id\<close>, and the item reference itself under \<open>identity\<close>; two states
  with the same strategy in which the item has the same id give the same key.
\<close>

theorem C7_trackByFn:
  "(trackingStrategy s = ''index'' \<longrightarrow> trackByFn s i r = KNum (int i))
   \<and> (trackingStrategy s = ''id'' \<longrightarrow> trackByFn s i r = KNum (id' (deref s r)))
   \<and> (trackingStrategy s = ''identity'' \<longrightarrow> trackByFn s i r = KObj r)
   \<and> (trackingStrategy t = trackingStrategy s \<and> id' (deref t r) = id' (deref s r)
        \<longrightarrow> trackByFn t i r = trackByFn s i r)"
  by (simp add: trackByFn_def)

theorem C7_trackByFn_witness:
  "trackByFn (App []) 4 7 = KNum 4
   \<and> trackByFn (App [(''tracking'', ''id'')]) 4 7 = KNum 7
   \<and> trackByFn (App [(''tracking'', ''identity'')]) 4 7 = KObj 7
   \<and> trackByFn (App [(''tracking'', ''id''), (''dom'', ''stateful'')]) 4 7
       = trackByFn (App [(''tracking'', ''id'')]) 4 7"
proof -
  have h: "id' (deref (App [(''tracking'', ''id''), (''dom'', ''stateful'')]) 7)
             = id' (deref (App [(''tracking'', ''id'')]) 7)"
    by (simp add: App_def new_items_def deref_def Let_def)
  have a: "trackByFn (App []) 4 7 = KNum 4"
    using C7_trackByFn [of "App []" 4 7 "App []"]
    by (simp add: App_strategies params_get_def js_or_def)
  have b: "trackByFn (App [(''tracking'', ''id'')]) 4 7 = KNum 7"
    using C7_trackByFn [of "App [(''tracking'', ''id'')]" 4 7 "App [(''tracking'', ''id'')]"]
    by (simp add: App_strategies params_get_def js_or_def)
       (simp add: App_def new_items_def deref_def Let_def ten_items_def)
  have c: "trackByFn (App [(''tracking'', ''identity'')]) 4 7 = KObj 7"
    using C7_trackByFn [of "App [(''tracking'', ''identity'')]" 4 7 "App []"]
    by (simp add: App_strategies params_get_def js_or_def)
  have d: "trackByFn (App [(''tracking'', ''id''), (''dom'', ''stateful'')]) 4 7
             = trackByFn (App [(''tracking'', ''id'')]) 4 7"
    using C7_trackByFn [of "App [(''tracking'', ''id'')]" 4 7
        "App [(''tracking'', ''id''), (''dom'', ''stateful'')]"] h
    by (simp add: App_strategies params_get_def js_or_def)
  from a b c d show ?thesis by simp
qed

section \<open>Shuffling keeps the keys\<close>

text \<open>
  C8: under the \<open>shuffle\<close> change strategy with the \<open>id\<close> or the \<open>identity\<close> tracking
  strategy, after any number of mutation ticks the multiset of the keys of the snapshot
  is what it was, so by the reconciler's contract no node is created, none is destroyed,
  and every node is reused.
\<close>

theorem C8_shuffle_keys_invariant:
  assumes "rtranclp interval_tick s t"
    and "changeStrategy s = ''shuffle''"
    and "trackingStrategy s = ''id'' \<or> trackingStrategy s = ''identity''"
  shows "mset (track_keys t) = mset (track_keys s)
         \<and> keys_created (track_keys s) (track_keys t) = {}
         \<and> keys_destroyed (track_keys s) (track_keys t) = {}
         \<and> keys_reused (track_keys s) (track_keys t) = set (track_keys s)"
proof -
  have ch: "changeStrategy s \<noteq> ''increment''"
    using assms(2) by simp
  have same: "heap t = heap s" "mset (arr t) = mset (arr s)"
    "trackingStrategy t = trackingStrategy s"
    using shuffle_ticks [OF assms(1) ch] by simp_all
  have ni: "trackingStrategy s \<noteq> ''index''" "trackingStrategy t \<noteq> ''index''"
    using assms(3) same(3) by auto
  have f: "trackByFn t 0 = trackByFn s 0"
    by (simp add: fun_eq_iff trackByFn_def deref_def same)
  have "mset (track_keys t) = image_mset (trackByFn t 0) (mset (arr t))"
    by (simp add: track_keys_no_index [OF ni(2)])
  also have "\<dots> = image_mset (trackByFn s 0) (mset (arr s))"
    by (simp only: f same(2))
  also have "\<dots> = mset (track_keys s)"
    by (simp add: track_keys_no_index [OF ni(1)])
  finally have m: "mset (track_keys t) = mset (track_keys s)" .
  then have "set (track_keys t) = set (track_keys s)"
    by (rule mset_eq_setD)
  with m show ?thesis
    by (simp add: keys_created_def keys_destroyed_def keys_reused_def)
qed

theorem C8_shuffle_keys_invariant_witness:
  "rtranclp interval_tick (App [(''tracking'', ''id''), (''change'', ''shuffle'')])
      (arr_set (rev (arr (App [(''tracking'', ''id''), (''change'', ''shuffle'')])))
         (App [(''tracking'', ''id''), (''change'', ''shuffle'')]))
   \<and> changeStrategy (App [(''tracking'', ''id''), (''change'', ''shuffle'')]) = ''shuffle''
   \<and> trackingStrategy (App [(''tracking'', ''id''), (''change'', ''shuffle'')]) = ''id''
   \<and> mset (track_keys (arr_set (rev (arr (App [(''tracking'', ''id''), (''change'', ''shuffle'')])))
         (App [(''tracking'', ''id''), (''change'', ''shuffle'')])))
        = mset (track_keys (App [(''tracking'', ''id''), (''change'', ''shuffle'')]))
   \<and> keys_created (track_keys (App [(''tracking'', ''id''), (''change'', ''shuffle'')]))
        (track_keys (arr_set (rev (arr (App [(''tracking'', ''id''), (''change'', ''shuffle'')])))
         (App [(''tracking'', ''id''), (''change'', ''shuffle'')]))) = {}
   \<and> keys_destroyed (track_keys (App [(''tracking'', ''id''), (''change'', ''shuffle'')]))
        (track_keys (arr_set (rev (arr (App [(''tracking'', ''id''), (''change'', ''shuffle'')])))
         (App [(''tracking'', ''id''), (''change'', ''shuffle'')]))) = {}"
proof -
  let ?S = "App [(''tracking'', ''id''), (''change'', ''shuffle'')]"
  have a: "changeStrategy ?S = ''shuffle''"
    by (rule App_strategy_values)
  have b: "trackingStrategy ?S = ''id''"
    by (rule App_strategy_values)
  have "changeStrategy ?S \<noteq> ''increment''"
    using a by simp
  then have "interval_tick ?S (arr_set (rev (arr ?S)) ?S)"
    by (rule App_tick_shuffle)
  then have r: "rtranclp interval_tick ?S (arr_set (rev (arr ?S)) ?S)" ..
  from b have b': "trackingStrategy ?S = ''id'' \<or> trackingStrategy ?S = ''identity''" ..
  from C8_shuffle_keys_invariant [OF r a b'] r a b show ?thesis
    by blast
qed

section \<open>The length of the list\<close>

text \<open>
  C9: a mutation tick, under either change strategy, publishes a snapshot of the same
  length as the one before. The snapshot of the new component has ten items, and from a
  snapshot of ten items any number of ticks leads to a snapshot of ten items.
\<close>

theorem C9_length_invariant:
  "(interval_tick s s' \<longrightarrow> length (arr s') = length (arr s))
   \<and> length (arr (App P)) = 10
   \<and> (rtranclp interval_tick u t \<and> length (arr u) = 10 \<longrightarrow> length (arr t) = 10)"
proof -
  have "length (arr (App P)) = 10"
    by (simp add: App_fields)
  then show ?thesis
    by (auto simp: interval_tick_frame dest: ticks_length)
qed

theorem C9_length_invariant_witness:
  "interval_tick (App [(''tracking'', ''id''), (''change'', ''shuffle'')])
      (arr_set (rev (arr (App [(''tracking'', ''id''), (''change'', ''shuffle'')])))
         (App [(''tracking'', ''id''), (''change'', ''shuffle'')]))
   \<and> length (arr (arr_set (rev (arr (App [(''tracking'', ''id''), (''change'', ''shuffle'')])))
         (App [(''tracking'', ''id''), (''change'', ''shuffle'')])))
       = length (arr (App [(''tracking'', ''id''), (''change'', ''shuffle'')]))
   \<and> rtranclp interval_tick (App []) (tick_increment (App []))
   \<and> length (arr (App [])) = 10
   \<and> length (arr (tick_increment (App []))) = 10"
proof -
  let ?S = "App [(''tracking'', ''id''), (''change'', ''shuffle'')]"
  have "changeStrategy ?S \<noteq> ''increment''"
    by (simp add: App_strategy_values)
  then have t: "interval_tick ?S (arr_set (rev (arr ?S)) ?S)"
    by (rule App_tick_shuffle)
  have "interval_tick (App []) (tick_increment (App []))"
    by (rule App_tick_increment) (rule App_strategy_values)
  then have r: "rtranclp interval_tick (App []) (tick_increment (App []))" ..
  from C9_length_invariant [of ?S "arr_set (rev (arr ?S)) ?S" "[]" "App []" "tick_increment (App [])"] t r
  show ?thesis by blast
qed

section \<open>Identity tracking under increment\<close>

text \<open>
  C10: under the \<open>identity\<close> tracking strategy with the \<open>increment\<close> change strategy, in any
  state that the component reaches from startup and that shows a list, a mutation tick
  publishes ten new objects: the keys are the object references, those after the tick are
  all new, no key is shared between the two snapshots, so all ten nodes are destroyed and
  ten nodes are created. (The list is empty only between a reset and the render that
  follows it.)
\<close>

theorem C10_identity_increment:
  assumes "rtranclp step (App P) s"
    and "arr s \<noteq> []"
    and "interval_tick s s'"
    and "trackingStrategy s = ''identity''"
    and "changeStrategy s = ''increment''"
  shows "track_keys s = map KObj (arr s)
         \<and> track_keys s' = map KObj (arr s')
         \<and> list_all (\<lambda>r. r < length (heap s)) (arr s)
         \<and> list_all (\<lambda>r. length (heap s) \<le> r) (arr s')
         \<and> keys_reused (track_keys s) (track_keys s') = {}
         \<and> keys_destroyed (track_keys s) (track_keys s') = set (track_keys s)
         \<and> keys_created (track_keys s) (track_keys s') = set (track_keys s')
         \<and> card (keys_destroyed (track_keys s) (track_keys s')) = 10
         \<and> card (keys_created (track_keys s) (track_keys s')) = 10"
proof -
  have inv: "wf s" "distinct (arr s)" and len: "length (arr s) = 10"
    using steps_inv [OF assms(1)] assms(2) by simp_all
  have inv': "distinct (arr s')"
    using tick_inv [OF assms(3) inv] by simp
  have len': "length (arr s') = 10"
    using interval_tick_frame(8) [OF assms(3)] len by simp
  have eq: "s' = tick_increment s"
    using assms(3,5) by (rule interval_tick_incrementD)
  have k: "track_keys s = map KObj (arr s)"
    using assms(4) by (rule track_keys_identity)
  have "trackingStrategy s' = ''identity''"
    using interval_tick_frame(1) [OF assms(3)] assms(4) by simp
  then have k': "track_keys s' = map KObj (arr s')"
    by (rule track_keys_identity)
  have old: "list_all (\<lambda>r. r < length (heap s)) (arr s)"
    using inv(1) by (simp add: wf_def)
  have new: "list_all (\<lambda>r. length (heap s) \<le> r) (arr s')"
    unfolding eq tick_increment_arr by (simp add: list_all_iff)
  have disj: "set (arr s) \<inter> set (arr s') = {}"
    using old new by (fastforce simp: list_all_iff)
  have "inj KObj" by (simp add: inj_def)
  then have kd: "set (track_keys s) \<inter> set (track_keys s') = {}"
    using disj by (simp add: k k' image_Int [symmetric])
  have ci: "card (KObj ` set xs) = card (set xs)" for xs
    by (rule card_image) (simp add: inj_on_def)
  have c: "card (set (track_keys s)) = 10"
    using inv(2) len by (simp add: k ci distinct_card)
  have c': "card (set (track_keys s')) = 10"
    using inv' len' by (simp add: k' ci distinct_card)
  have r: "keys_reused (track_keys s) (track_keys s') = {}"
    using kd by (simp add: keys_reused_def)
  have d: "keys_destroyed (track_keys s) (track_keys s') = set (track_keys s)"
    using kd by (auto simp: keys_destroyed_def)
  have cr: "keys_created (track_keys s) (track_keys s') = set (track_keys s')"
    using kd by (auto simp: keys_created_def)
  from k k' old new r d cr c c' show ?thesis by simp
qed

theorem C10_identity_increment_witness:
  "rtranclp step (App [(''tracking'', ''identity'')]) (tick_increment (App [(''tracking'', ''identity'')]))
   \<and> arr (tick_increment (App [(''tracking'', ''identity'')])) = [10..<20]
   \<and> interval_tick (tick_increment (App [(''tracking'', ''identity'')]))
        (tick_increment (tick_increment (App [(''tracking'', ''identity'')])))
   \<and> trackingStrategy (tick_increment (App [(''tracking'', ''identity'')])) = ''identity''
   \<and> changeStrategy (tick_increment (App [(''tracking'', ''identity'')])) = ''increment''
   \<and> keys_reused (track_keys (tick_increment (App [(''tracking'', ''identity'')])))
        (track_keys (tick_increment (tick_increment (App [(''tracking'', ''identity'')])))) = {}
   \<and> card (keys_destroyed (track_keys (tick_increment (App [(''tracking'', ''identity'')])))
        (track_keys (tick_increment (tick_increment (App [(''tracking'', ''identity'')]))))) = 10
   \<and> card (keys_created (track_keys (tick_increment (App [(''tracking'', ''identity'')])))
        (track_keys (tick_increment (tick_increment (App [(''tracking'', ''identity'')]))))) = 10"
proof -
  let ?S = "App [(''tracking'', ''identity'')]"
  have "interval_tick ?S (tick_increment ?S)"
    by (rule App_tick_increment) (rule App_strategy_values)
  then have "step ?S (tick_increment ?S)"
    by (rule step.tick)
  then have r: "rtranclp step ?S (tick_increment ?S)" ..
  have n: "arr (tick_increment ?S) = [10..<20]"
    by (simp add: tick_increment_arr App_fields ten_items_def)
  then have ne: "arr (tick_increment ?S) \<noteq> []"
    by simp
  have a: "trackingStrategy (tick_increment ?S) = ''identity''"
    by (simp add: tick_increment_frame App_strategy_values)
  have b: "changeStrategy (tick_increment ?S) = ''increment''"
    by (simp add: tick_increment_frame App_strategy_values)
  have "3000 \<in> set (intervals (tick_increment ?S))"
    by (simp add: tick_increment_frame App_fields)
  then have t: "interval_tick (tick_increment ?S) (tick_increment (tick_increment ?S))"
    using b by (rule interval_tick.increment)
  from C10_identity_increment [OF r ne t a b] r n t a b show ?thesis
    by blast
qed

end
